theory Spec2Isabelle
  imports Main "HOL-Library.Word"
begin

section \<open>Data model\<close>

text \<open>
  The handlers of \<^verbatim>\<open>routes/api.js\<close> and of the upload router talk to three external
  services: the Prisma document store, the Vercel Blob store and the sharp transcoder.
  A request body is a parsed JSON object with scalar fields; a stored photo carries the
  identifier assigned by the store and the optional \<^verbatim>\<open>imageUrl\<close> and \<^verbatim>\<open>imagePath\<close>
  strings of the Prisma schema (\<^verbatim>\<open>String?\<close>).
\<close>

datatype jsval = JNull | JBool bool | JNum int | JStr string

type_synonym jsobject = "(string \<times> jsval) list"

type_synonym buffer = "8 word list"

record photo =
  photo_id :: string
  imageUrl :: "string option"
  imagePath :: "string option"
  photo_fields :: jsobject

text \<open>A thrown JavaScript error: Prisma errors carry a \<^verbatim>\<open>code\<close>, every error a message.\<close>

record js_error =
  err_code :: "string option"
  err_message :: string

text \<open>The result of \<^verbatim>\<open>put\<close> of the blob store.\<close>

record blob =
  blob_url :: string
  blob_pathname :: string
  blob_contentType :: string

record put_options =
  access :: string
  contentType :: string
  addRandomSuffix :: bool
  cacheControlMaxAge :: nat

datatype fit = Cover | Contain | Fill | Inside | Outside

text \<open>
  The sharp pipeline that the upload handler builds:
  \<^verbatim>\<open>.resize(w, h, {fit, withoutEnlargement}).jpeg({quality})\<close>.
\<close>

record sharp_pipeline =
  resize_width :: nat
  resize_height :: nat
  resize_fit :: fit
  withoutEnlargement :: bool
  jpeg_quality :: nat

text \<open>\<^verbatim>\<open>details: err.message || err\<close>: the message, or the error itself when the message is empty.\<close>

datatype details = DetailsMessage string | DetailsError js_error

datatype body =
    PhotoBody photo
  | ErrorBody string
  | ErrorDetailsBody string details
  | UploadBody string string string nat
  | DeletedBody string

text \<open>
  What a handler does is the sequence of its effects, in order: each call to an external
  service with the outcome it got (\<open>Inl\<close> is a thrown error), the console output, the
  timer, the stream events and the responses it sends.
\<close>

datatype event =
    DbCreate jsobject "js_error + photo"
  | DbFindUnique string "js_error + photo option"
  | DbUpdate string jsobject "js_error + photo"
  | DbDelete string "js_error + photo"
  | BlobDel string "js_error + unit"
  | BlobPut string buffer put_options "js_error + blob"
  | Sharp buffer sharp_pipeline "js_error + buffer"
  | FileData nat
  | FileDestroy
  | SetTimeout nat
  | ConsoleLog string
  | ConsoleError string js_error
  | UnhandledRejection js_error
  | Respond nat body

text \<open>
  The external services, as transformers of a world \<open>'w\<close> that the handlers never inspect.
  Each call returns its outcome and the next world.
\<close>

record 'w services =
  prisma_create :: "jsobject \<Rightarrow> 'w \<Rightarrow> (js_error + photo) \<times> 'w"
  prisma_findUnique :: "string \<Rightarrow> 'w \<Rightarrow> (js_error + photo option) \<times> 'w"
  prisma_update :: "string \<Rightarrow> jsobject \<Rightarrow> 'w \<Rightarrow> (js_error + photo) \<times> 'w"
  prisma_delete :: "string \<Rightarrow> 'w \<Rightarrow> (js_error + photo) \<times> 'w"
  blob_del :: "string \<Rightarrow> 'w \<Rightarrow> (js_error + unit) \<times> 'w"
  blob_put :: "string \<Rightarrow> buffer \<Rightarrow> put_options \<Rightarrow> 'w \<Rightarrow> (js_error + blob) \<times> 'w"
  sharp_toBuffer :: "buffer \<Rightarrow> sharp_pipeline \<Rightarrow> 'w \<Rightarrow> (js_error + buffer) \<times> 'w"
  date_now :: "'w \<Rightarrow> nat"
  decodeURIComponent :: "string \<Rightarrow> js_error + string"

section \<open>Observations on a trace\<close>

fun responses :: "event list \<Rightarrow> (nat \<times> body) list" where
  "responses [] = []"
| "responses (Respond st b # es) = (st, b) # responses es"
| "responses (_ # es) = responses es"

fun blob_deletes :: "event list \<Rightarrow> string list" where
  "blob_deletes [] = []"
| "blob_deletes (BlobDel u _ # es) = u # blob_deletes es"
| "blob_deletes (_ # es) = blob_deletes es"

fun update_outcomes :: "event list \<Rightarrow> (js_error + photo) list" where
  "update_outcomes [] = []"
| "update_outcomes (DbUpdate _ _ r # es) = r # update_outcomes es"
| "update_outcomes (_ # es) = update_outcomes es"

fun timeouts :: "event list \<Rightarrow> nat list" where
  "timeouts [] = []"
| "timeouts (SetTimeout ms # es) = ms # timeouts es"
| "timeouts (_ # es) = timeouts es"

fun unhandled :: "event list \<Rightarrow> js_error list" where
  "unhandled [] = []"
| "unhandled (UnhandledRejection e # es) = e # unhandled es"
| "unhandled (_ # es) = unhandled es"

text \<open>The \<^verbatim>\<open>data\<close> argument of every create and update sent to the store.\<close>

fun store_writes :: "event list \<Rightarrow> jsobject list" where
  "store_writes [] = []"
| "store_writes (DbCreate d _ # es) = d # store_writes es"
| "store_writes (DbUpdate _ d _ # es) = d # store_writes es"
| "store_writes (_ # es) = store_writes es"

text \<open>The record each update addresses (\<^verbatim>\<open>where: { id: ... }\<close>).\<close>

fun update_targets :: "event list \<Rightarrow> string list" where
  "update_targets [] = []"
| "update_targets (DbUpdate i _ _ # es) = i # update_targets es"
| "update_targets (_ # es) = update_targets es"

fun sharp_calls :: "event list \<Rightarrow> (buffer \<times> sharp_pipeline) list" where
  "sharp_calls [] = []"
| "sharp_calls (Sharp b pl _ # es) = (b, pl) # sharp_calls es"
| "sharp_calls (_ # es) = sharp_calls es"

fun blob_puts :: "event list \<Rightarrow> (string \<times> buffer \<times> put_options) list" where
  "blob_puts [] = []"
| "blob_puts (BlobPut k b opts _ # es) = (k, b, opts) # blob_puts es"
| "blob_puts (_ # es) = blob_puts es"

text \<open>\<^verbatim>\<open>err.code === 'P2034'\<close>: the store reported a write conflict.\<close>

definition is_conflict :: "js_error + photo \<Rightarrow> bool" where
  "is_conflict r = (case r of Inl e \<Rightarrow> err_code e = Some ''P2034'' | Inr _ \<Rightarrow> False)"

text \<open>The three responses of PUT /data/:id, by the outcome of the last update.\<close>

definition put_response :: "js_error + photo \<Rightarrow> nat \<times> body" where
  "put_response r =
     (case r of
        Inr updated \<Rightarrow> (200, PhotoBody updated)
      | Inl e \<Rightarrow>
          if err_code e = Some ''P2034'' then (409, ErrorBody ''Write conflict, please retry'')
          else (500, ErrorBody ''Failed to update record''))"

text \<open>
  What a run of the retry loop with a budget of attempts must look like: at least one
  and at most \<open>budget\<close> updates, all of them for record \<open>pid\<close> with data \<open>d\<close>, a wait of
  100 ms between two updates, every update but the last a write conflict, a last
  conflict only when the budget is spent, one response, nothing unhandled.
\<close>

definition put_ok :: "string \<Rightarrow> jsobject \<Rightarrow> nat \<Rightarrow> event list \<Rightarrow> bool" where
  "put_ok pid d budget tr =
     (let os = update_outcomes tr in
      os \<noteq> [] \<and> length os \<le> budget
      \<and> timeouts tr = replicate (length os - 1) 100
      \<and> (\<forall>r \<in> set (butlast os). is_conflict r)
      \<and> responses tr = [put_response (last os)]
      \<and> (is_conflict (last os) \<longrightarrow> length os = budget)
      \<and> unhandled tr = []
      \<and> set (store_writes tr) = {d} \<and> set (update_targets tr) = {pid})"

text \<open>The class of an HTTP status: 2 for 200 and 201, 4 for 400.\<close>

definition status_class :: "nat \<Rightarrow> nat" where
  "status_class st = st div 100"

section \<open>routes/api.js\<close>

text \<open>
  Object rest destructuring \<^verbatim>\<open>const { k1, ..., ...rest } = obj\<close>: \<^verbatim>\<open>rest\<close> has the
  properties of \<^verbatim>\<open>obj\<close> other than the named ones, in their order.
\<close>

definition rest_without :: "string list \<Rightarrow> jsobject \<Rightarrow> jsobject" where
  "rest_without ks obj = filter (\<lambda>kv. fst kv \<notin> set ks) obj"

definition error_details :: "js_error \<Rightarrow> details" where
  "error_details err =
     (if err_message err \<noteq> [] then DetailsMessage (err_message err) else DetailsError err)"

subsection \<open>POST /data\<close>

text \<open>Destructuring an undefined \<^verbatim>\<open>req.body\<close> throws a TypeError inside the \<^verbatim>\<open>try\<close>.\<close>

definition destructure_undefined :: js_error where
  "destructure_undefined =
     \<lparr>err_code = None,
      err_message = ''Cannot destructure property 'id' of 'req.body' as it is undefined.''\<rparr>"

definition post_data_catch :: "js_error \<Rightarrow> event list" where
  "post_data_catch err =
     [ConsoleError ''POST /data error:'' err,
      Respond 500 (ErrorDetailsBody ''Failed to create record'' (error_details err))]"

definition post_data :: "'w services \<Rightarrow> jsobject option \<Rightarrow> 'w \<Rightarrow> event list \<times> 'w" where
  "post_data S reqBody w =
     (case reqBody of
        None \<Rightarrow> (post_data_catch destructure_undefined, w)
      | Some b \<Rightarrow>
          (let createData = rest_without [''id''] b in
           case prisma_create S createData w of
             (Inr created, w') \<Rightarrow>
               ([DbCreate createData (Inr created), Respond 201 (PhotoBody created)], w')
           | (Inl err, w') \<Rightarrow> (DbCreate createData (Inl err) # post_data_catch err, w')))"

subsection \<open>PUT /data/:id\<close>

text \<open>
  The loop \<^verbatim>\<open>for (let attempt = 0; attempt < 3; attempt++)\<close>, from a given value of
  \<^verbatim>\<open>attempt\<close>. Falling out of the loop would end the handler without a response.
\<close>

function put_data_loop ::
  "'w services \<Rightarrow> string \<Rightarrow> jsobject \<Rightarrow> nat \<Rightarrow> 'w \<Rightarrow> event list \<times> 'w" where
  "put_data_loop S pid requestBody attempt w =
     (if attempt < 3 then
        (case prisma_update S pid requestBody w of
           (Inr updated, w') \<Rightarrow>
             ([DbUpdate pid requestBody (Inr updated),
               ConsoleLog ''PUT /data/:id successful'',
               Respond 200 (PhotoBody updated)], w')
         | (Inl err, w') \<Rightarrow>
             (if err_code err = Some ''P2034'' then
                (if attempt < 2 then
                   (case put_data_loop S pid requestBody (Suc attempt) w' of
                      (es, w'') \<Rightarrow>
                        (DbUpdate pid requestBody (Inl err) # SetTimeout 100 # es, w''))
                 else
                   ([DbUpdate pid requestBody (Inl err),
                     Respond 409 (ErrorBody ''Write conflict, please retry'')], w'))
              else
                ([DbUpdate pid requestBody (Inl err),
                  ConsoleError ''PUT /data/:id error:'' err,
                  Respond 500 (ErrorBody ''Failed to update record'')], w')))
      else ([], w))"
  by pat_completeness auto
termination
  by (relation "measure (\<lambda>(S, pid, requestBody, attempt, w). 3 - attempt)") auto

declare put_data_loop.simps [simp del]

text \<open>\<^verbatim>\<open>const { id, _id, ...requestBody } = req.body || {}\<close>, then the loop from 0.\<close>

definition put_data :: "'w services \<Rightarrow> string \<Rightarrow> jsobject option \<Rightarrow> 'w \<Rightarrow> event list \<times> 'w" where
  "put_data S pid reqBody w =
     put_data_loop S pid
       (rest_without [''id'', ''_id''] (case reqBody of None \<Rightarrow> [] | Some b \<Rightarrow> b)) 0 w"

subsection \<open>DELETE /data/:id\<close>

text \<open>The \<^verbatim>\<open>catch (err)\<close> block of the handler.\<close>

definition delete_data_catch :: "js_error \<Rightarrow> event list" where
  "delete_data_catch err =
     [ConsoleError ''DELETE /data/:id error:'' err,
      Respond 500 (ErrorDetailsBody ''Failed to delete record'' (error_details err))]"

text \<open>\<^verbatim>\<open>photo?.imageUrl\<close>: undefined when the photo is null, else the field.\<close>

definition optional_imageUrl :: "photo option \<Rightarrow> string option" where
  "optional_imageUrl p = (case p of None \<Rightarrow> None | Some ph \<Rightarrow> imageUrl ph)"

text \<open>
  \<^verbatim>\<open>if (photo?.imageUrl) { try { await del(photo.imageUrl); console.log(...) }
  catch (blobError) { console.error(...) } }\<close>: null, undefined and the empty string are
  falsy; a failure of \<^verbatim>\<open>del\<close> is logged and goes no further.
\<close>

definition delete_image_of :: "'w services \<Rightarrow> photo option \<Rightarrow> 'w \<Rightarrow> event list \<times> 'w" where
  "delete_image_of S p w =
     (case optional_imageUrl p of
        None \<Rightarrow> ([], w)
      | Some u \<Rightarrow>
          if u = [] then ([], w)
          else (case blob_del S u w of
                  (Inr x, w') \<Rightarrow> ([BlobDel u (Inr x), ConsoleLog ''Deleted image:''], w')
                | (Inl blobError, w') \<Rightarrow>
                    ([BlobDel u (Inl blobError),
                      ConsoleError ''Failed to delete image:'' blobError], w')))"

definition delete_data :: "'w services \<Rightarrow> string \<Rightarrow> 'w \<Rightarrow> event list \<times> 'w" where
  "delete_data S pid w =
     (case prisma_findUnique S pid w of
        (Inl err, w1) \<Rightarrow> (DbFindUnique pid (Inl err) # delete_data_catch err, w1)
      | (Inr ph, w1) \<Rightarrow>
          (case prisma_delete S pid w1 of
             (Inl err, w2) \<Rightarrow>
               (DbFindUnique pid (Inr ph) # DbDelete pid (Inl err) # delete_data_catch err, w2)
           | (Inr result, w2) \<Rightarrow>
               (case delete_image_of S ph w2 of
                  (es, w3) \<Rightarrow>
                    ([DbFindUnique pid (Inr ph), DbDelete pid (Inr result)] @ es
                       @ [Respond 200 (PhotoBody result)], w3))))"

section \<open>routes/upload.js\<close>

subsection \<open>Configuration\<close>

definition MAX_FILE_SIZE :: nat where
  "MAX_FILE_SIZE = 10 * 1024 * 1024"

definition MAX_WIDTH :: nat where
  "MAX_WIDTH = 800"

definition MAX_HEIGHT :: nat where
  "MAX_HEIGHT = 800"

definition JPEG_QUALITY :: nat where
  "JPEG_QUALITY = 85"

definition ALLOWED_TYPES :: "string list" where
  "ALLOWED_TYPES = [''image/jpeg'', ''image/png'', ''image/webp'', ''image/svg+xml'']"

subsection \<open>JavaScript built-ins the handler uses\<close>

text \<open>\<^verbatim>\<open>String.prototype.includes\<close>: the needle occurs at some offset.\<close>

fun str_includes :: "string \<Rightarrow> string \<Rightarrow> bool" where
  "str_includes [] needle = (needle = [])"
| "str_includes (c # cs) needle =
     (take (length needle) (c # cs) = needle \<or> str_includes cs needle)"

text \<open>The decimal rendering of a number inside a template literal.\<close>

definition digit_char :: "nat \<Rightarrow> char" where
  "digit_char d = ''0123456789'' ! d"

function number_to_string :: "nat \<Rightarrow> string" where
  "number_to_string n =
     (if n < 10 then [digit_char n]
      else number_to_string (n div 10) @ [digit_char (n mod 10)])"
  by pat_completeness auto
termination
  by (relation "measure id") auto

declare number_to_string.simps [simp del]

subsection \<open>POST /upload\<close>

text \<open>
  The part that busboy hands to the \<^verbatim>\<open>file\<close> callback: the declared name and MIME type
  (\<^verbatim>\<open>info\<close>), and the chunks its stream will deliver, in order.
\<close>

record file_info =
  filename :: string
  mimeType :: string

record file_part =
  info :: file_info
  chunks :: "buffer list"

text \<open>
  The \<^verbatim>\<open>data\<close> listener, run over the chunks the stream still has to deliver, with the
  handler's \<^verbatim>\<open>chunks\<close> and \<^verbatim>\<open>fileSize\<close> so far. A destroyed stream delivers nothing
  more and never emits \<^verbatim>\<open>end\<close>: the result \<open>None\<close>. Otherwise \<^verbatim>\<open>end\<close> follows the
  last chunk, with the chunks collected.
\<close>

fun on_data :: "buffer list \<Rightarrow> buffer list \<Rightarrow> nat \<Rightarrow> event list \<times> buffer list option" where
  "on_data [] collected fileSize = ([], Some collected)"
| "on_data (chunk # incoming) collected fileSize =
     (if fileSize + length chunk > MAX_FILE_SIZE
      then ([FileData (length chunk), FileDestroy,
             Respond 400 (ErrorBody ''File too large. Maximum size is 10MB.'')], None)
      else (case on_data incoming (collected @ [chunk]) (fileSize + length chunk) of
              (es, r) \<Rightarrow> (FileData (length chunk) # es, r)))"

definition upload_pipeline :: sharp_pipeline where
  "upload_pipeline =
     \<lparr>resize_width = MAX_WIDTH, resize_height = MAX_HEIGHT, resize_fit = Inside,
      withoutEnlargement = True, jpeg_quality = JPEG_QUALITY\<rparr>"

text \<open>
  \<^verbatim>\<open>let processedBuffer = buffer; let contentType = info.mimeType;
  if (!info.mimeType.includes('svg')) { processedBuffer = await sharp(buffer)...toBuffer();
  contentType = 'image/jpeg' }\<close>. The result is the pair of the two variables, or the
  error that \<^verbatim>\<open>toBuffer\<close> throws.
\<close>

definition process_image ::
  "'w services \<Rightarrow> file_info \<Rightarrow> buffer \<Rightarrow> 'w \<Rightarrow> event list \<times> (js_error + buffer \<times> string) \<times> 'w" where
  "process_image S i buffer w =
     (if \<not> str_includes (mimeType i) ''svg'' then
        (case sharp_toBuffer S buffer upload_pipeline w of
           (Inl err, w') \<Rightarrow> ([Sharp buffer upload_pipeline (Inl err)], Inl err, w')
         | (Inr processedBuffer, w') \<Rightarrow>
             ([Sharp buffer upload_pipeline (Inr processedBuffer)],
              Inr (processedBuffer, ''image/jpeg''), w'))
      else ([], Inr (buffer, mimeType i), w))"

definition blob_key :: "'w services \<Rightarrow> file_info \<Rightarrow> 'w \<Rightarrow> string" where
  "blob_key S i w = ''cat-images/'' @ number_to_string (date_now S w) @ ''-'' @ filename i"

definition blob_options :: "string \<Rightarrow> put_options" where
  "blob_options ct =
     \<lparr>access = ''public'', contentType = ct, addRandomSuffix = True,
      cacheControlMaxAge = 31536000\<rparr>"

text \<open>
  The \<^verbatim>\<open>end\<close> listener. It is an async function of its own: an error thrown by sharp or
  by \<^verbatim>\<open>put\<close> rejects its promise, which nothing handles, and no response is sent.
\<close>

definition on_end :: "'w services \<Rightarrow> file_info \<Rightarrow> buffer list \<Rightarrow> 'w \<Rightarrow> event list \<times> 'w" where
  "on_end S i collected w =
     (let buffer = concat collected in
      case process_image S i buffer w of
        (es, Inl err, w1) \<Rightarrow> (es @ [UnhandledRejection err], w1)
      | (es, Inr (processedBuffer, ct), w1) \<Rightarrow>
          (let key = blob_key S i w1; opts = blob_options ct in
           case blob_put S key processedBuffer opts w1 of
             (Inl err, w2) \<Rightarrow>
               (es @ [BlobPut key processedBuffer opts (Inl err), UnhandledRejection err], w2)
           | (Inr b, w2) \<Rightarrow>
               (es @ [BlobPut key processedBuffer opts (Inr b),
                      Respond 200 (UploadBody (blob_url b) (blob_pathname b)
                                     (blob_contentType b) (length processedBuffer))], w2)))"

text \<open>
  The \<^verbatim>\<open>file\<close> callback. Nothing in its \<^verbatim>\<open>try\<close> block throws synchronously (the
  listeners run later), so its \<^verbatim>\<open>catch\<close> is never entered.
\<close>

definition post_upload :: "'w services \<Rightarrow> file_part \<Rightarrow> 'w \<Rightarrow> event list \<times> 'w" where
  "post_upload S file w =
     (if mimeType (info file) \<notin> set ALLOWED_TYPES
      then ([Respond 400 (ErrorBody ''Invalid file type. Only images allowed.'')], w)
      else (case on_data (chunks file) [] 0 of
              (es, None) \<Rightarrow> (es, w)
            | (es, Some collected) \<Rightarrow>
                (case on_end S (info file) collected w of (es', w') \<Rightarrow> (es @ es', w'))))"

subsection \<open>DELETE /image/:url\<close>

text \<open>The handler, given \<^verbatim>\<open>req.params.url\<close>.\<close>

definition delete_image :: "'w services \<Rightarrow> string \<Rightarrow> 'w \<Rightarrow> event list \<times> 'w" where
  "delete_image S param_url w =
     (case decodeURIComponent S param_url of
        Inl err \<Rightarrow>
          ([ConsoleError ''Delete error:'' err,
            Respond 500 (ErrorDetailsBody ''Delete failed'' (DetailsMessage (err_message err)))], w)
      | Inr url \<Rightarrow>
          (case blob_del S url w of
             (Inr x, w') \<Rightarrow> ([BlobDel url (Inr x), Respond 200 (DeletedBody url)], w')
           | (Inl err, w') \<Rightarrow>
               ([BlobDel url (Inl err), ConsoleError ''Delete error:'' err,
                 Respond 500
                   (ErrorDetailsBody ''Delete failed'' (DetailsMessage (err_message err)))], w')))"

subsection \<open>The routes the router registers\<close>

datatype http_method = GET | POST | PUT | DELETE

datatype segment = Lit string | Param string

text \<open>
  \<^verbatim>\<open>express.Router()\<close> matches paths without regard to the case of ASCII letters.
\<close>

definition ascii_lower :: "char \<Rightarrow> char" where
  "ascii_lower c =
     (case map_of (zip ''ABCDEFGHIJKLMNOPQRSTUVWXYZ'' ''abcdefghijklmnopqrstuvwxyz'') c of
        None \<Rightarrow> c
      | Some l \<Rightarrow> l)"

text \<open>
  Matching a route path against the segments of the request path (below the mount point
  \<^verbatim>\<open>/api\<close>): a literal matches itself up to case, a \<^verbatim>\<open>:name\<close> parameter one
  non-empty segment, which it binds as it stands in the URL.
\<close>

fun match_path :: "segment list \<Rightarrow> string list \<Rightarrow> (string \<times> string) list option" where
  "match_path [] [] = Some []"
| "match_path (Lit s # ps) (x # xs) =
     (if map ascii_lower s = map ascii_lower x then match_path ps xs else None)"
| "match_path (Param n # ps) (x # xs) =
     (if x = [] then None
      else (case match_path ps xs of None \<Rightarrow> None | Some bs \<Rightarrow> Some ((n, x) # bs)))"
| "match_path _ _ = None"

text \<open>
  What busboy makes of the request's content type: a multipart form, with the file part
  it will announce, if any; a URL-encoded form, which has no file parts; or a content
  type that \<^verbatim>\<open>busboy({ headers: req.headers })\<close> refuses by throwing the given error.
\<close>

datatype upload_content = Multipart "file_part option" | Urlencoded | Unsupported js_error

record request =
  req_method :: http_method
  req_path :: "string list"
  req_body :: "jsobject option"
  req_content :: upload_content

text \<open>
  What the router does with a request: no route takes it (\<open>NoRoute\<close>, no handler runs);
  a route takes it but Express cannot percent-decode the path parameter (\<open>BadParam\<close>, a
  400 error raised by the router before any handler runs); or a handler runs, with its
  effects and the next world.
\<close>

datatype 'w routed = NoRoute | BadParam | Handled "event list" 'w

text \<open>
  \<^verbatim>\<open>router.post('/upload', ...)\<close> and \<^verbatim>\<open>router.delete('/image/:url', ...)\<close> are the
  only routes. The upload handler is an async function: when busboy throws, its promise
  rejects and the handler sends nothing; without a file part the \<^verbatim>\<open>file\<close> callback
  never fires. Express percent-decodes a path parameter before it calls the handler,
  which sees the decoded value as \<^verbatim>\<open>req.params.url\<close>.
\<close>

definition upload_router :: "'w services \<Rightarrow> request \<Rightarrow> 'w \<Rightarrow> 'w routed" where
  "upload_router S req w =
     (if req_method req = POST \<and> match_path [Lit ''upload''] (req_path req) \<noteq> None
      then (case req_content req of
              Unsupported err \<Rightarrow> Handled [UnhandledRejection err] w
            | Urlencoded \<Rightarrow> Handled [] w
            | Multipart None \<Rightarrow> Handled [] w
            | Multipart (Some file) \<Rightarrow>
                (case post_upload S file w of (es, w') \<Rightarrow> Handled es w'))
      else if req_method req = DELETE
      then (case match_path [Lit ''image'', Param ''url''] (req_path req) of
              None \<Rightarrow> NoRoute
            | Some params \<Rightarrow>
                (case map_of params ''url'' of
                   None \<Rightarrow> NoRoute
                 | Some raw \<Rightarrow>
                     (case decodeURIComponent S raw of
                        Inl err \<Rightarrow> BadParam
                      | Inr u \<Rightarrow> (case delete_image S u w of (es, w') \<Rightarrow> Handled es w'))))
      else NoRoute)"

section \<open>The resize geometry of the transcoder\<close>

text \<open>The integer nearest to \<open>a / b\<close>, halves rounded up.\<close>

definition round_div :: "nat \<Rightarrow> nat \<Rightarrow> nat" where
  "round_div a b = (2 * a + b) div (2 * b)"

text \<open>
  Modelled from the spec: the geometry of the Image Transcoder's resize, which the sharp
  library computes and which is not under src/. The spec's words: "decode, resize to fit
  within a fixed maximum width/height (default 800\<times>800) preserving aspect ratio, never
  upscaling smaller images". An image of \<open>w \<times> h\<close> pixels that fits the box is left as it
  is when enlargement is off; otherwise both edges are scaled by the one factor that
  brings the binding edge to the box, the other edge rounded to the nearest pixel and
  kept at one pixel at least.
\<close>

definition resized_dimensions :: "sharp_pipeline \<Rightarrow> nat \<times> nat \<Rightarrow> nat \<times> nat" where
  "resized_dimensions pl d =
     (case d of (w, h) \<Rightarrow>
        if withoutEnlargement pl \<and> w \<le> resize_width pl \<and> h \<le> resize_height pl then (w, h)
        else if h * resize_width pl \<le> w * resize_height pl
        then (resize_width pl, max 1 (round_div (h * resize_width pl) w))
        else (max 1 (round_div (w * resize_height pl) h), resize_height pl))"

section \<open>An in-memory stand-in for the external services\<close>

text \<open>
  To run the handlers on concrete requests the services are instantiated by a small
  scripted world: a table of photos, the blobs present, a switch that makes the blob
  store unavailable, the number of write conflicts the store will still report, and a
  clock. The handlers themselves are proved correct for every instance of the services.
\<close>

record world =
  db :: "(string \<times> photo) list"
  blobs :: "string list"
  blob_store_down :: bool
  pending_conflicts :: nat
  clock :: nat

definition not_found :: js_error where
  "not_found = \<lparr>err_code = Some ''P2025'', err_message = ''Record to delete does not exist.''\<rparr>"

definition write_conflict :: js_error where
  "write_conflict = \<lparr>err_code = Some ''P2034'', err_message = ''Transaction failed due to a write conflict''\<rparr>"

definition store_unavailable :: js_error where
  "store_unavailable = \<lparr>err_code = None, err_message = ''Vercel Blob: service unavailable''\<rparr>"

definition mem_findUnique :: "string \<Rightarrow> world \<Rightarrow> (js_error + photo option) \<times> world" where
  "mem_findUnique pid w = (Inr (map_of (db w) pid), w)"

definition mem_delete :: "string \<Rightarrow> world \<Rightarrow> (js_error + photo) \<times> world" where
  "mem_delete pid w =
     (case map_of (db w) pid of
        None \<Rightarrow> (Inl not_found, w)
      | Some p \<Rightarrow> (Inr p, w\<lparr>db := filter (\<lambda>kv. fst kv \<noteq> pid) (db w)\<rparr>))"

definition mem_update :: "string \<Rightarrow> jsobject \<Rightarrow> world \<Rightarrow> (js_error + photo) \<times> world" where
  "mem_update pid data w =
     (if 0 < pending_conflicts w
      then (Inl write_conflict, w\<lparr>pending_conflicts := pending_conflicts w - 1\<rparr>)
      else (case map_of (db w) pid of
              None \<Rightarrow> (Inl not_found, w)
            | Some p \<Rightarrow>
                (Inr (p\<lparr>photo_fields := data\<rparr>),
                 w\<lparr>db := map (\<lambda>kv. if fst kv = pid then (pid, p\<lparr>photo_fields := data\<rparr>) else kv)
                             (db w)\<rparr>)))"

definition mem_create :: "jsobject \<Rightarrow> world \<Rightarrow> (js_error + photo) \<times> world" where
  "mem_create data w =
     (let p = \<lparr>photo_id = replicate (Suc (length (db w))) CHR ''a'', imageUrl = None,
                imagePath = None, photo_fields = data\<rparr>
      in (Inr p, w\<lparr>db := (photo_id p, p) # db w\<rparr>))"

definition mem_del :: "string \<Rightarrow> world \<Rightarrow> (js_error + unit) \<times> world" where
  "mem_del u w =
     (if blob_store_down w then (Inl store_unavailable, w)
      else (Inr (), w\<lparr>blobs := removeAll u (blobs w)\<rparr>))"

definition mem_put :: "string \<Rightarrow> buffer \<Rightarrow> put_options \<Rightarrow> world \<Rightarrow> (js_error + blob) \<times> world" where
  "mem_put key bytes opts w =
     (if blob_store_down w then (Inl store_unavailable, w)
      else (Inr \<lparr>blob_url = ''https://blob.test/'' @ key, blob_pathname = key,
                 blob_contentType = contentType opts\<rparr>,
            w\<lparr>blobs := (''https://blob.test/'' @ key) # blobs w\<rparr>))"

definition mem_sharp :: "buffer \<Rightarrow> sharp_pipeline \<Rightarrow> world \<Rightarrow> (js_error + buffer) \<times> world" where
  "mem_sharp bytes pl w = (Inr (0xFF # 0xD8 # take 2 bytes), w)"

definition uri_error :: js_error where
  "uri_error = \<lparr>err_code = None, err_message = ''URI malformed''\<rparr>"

text \<open>
  Percent-decoding, for the escapes of this table only; any other use of \<open>%\<close> is the
  URIError of a malformed sequence.
\<close>

definition percent_escapes :: "(string \<times> char) list" where
  "percent_escapes =
     [(''3A'', CHR '':''), (''2F'', CHR ''/''), (''20'', CHR '' ''), (''25'', CHR ''%'')]"

fun mem_decode :: "string \<Rightarrow> js_error + string" where
  "mem_decode [] = Inr []"
| "mem_decode [c] = (if c = CHR ''%'' then Inl uri_error else Inr [c])"
| "mem_decode [c, d] = (if c = CHR ''%'' \<or> d = CHR ''%'' then Inl uri_error else Inr [c, d])"
| "mem_decode (c # h1 # h2 # cs) =
     (if c = CHR ''%'' then
        (case map_of percent_escapes [h1, h2] of
           None \<Rightarrow> Inl uri_error
         | Some x \<Rightarrow> (case mem_decode cs of Inl e \<Rightarrow> Inl e | Inr r \<Rightarrow> Inr (x # r)))
      else (case mem_decode (h1 # h2 # cs) of Inl e \<Rightarrow> Inl e | Inr r \<Rightarrow> Inr (c # r)))"

definition mem_services :: "world services" where
  "mem_services =
     \<lparr>prisma_create = mem_create, prisma_findUnique = mem_findUnique,
      prisma_update = mem_update, prisma_delete = mem_delete,
      blob_del = mem_del, blob_put = mem_put, sharp_toBuffer = mem_sharp,
      date_now = clock, decodeURIComponent = mem_decode\<rparr>"

definition cat_photo :: photo where
  "cat_photo = \<lparr>photo_id = ''p1'', imageUrl = Some ''https://blob.test/cat.jpg'',
                imagePath = Some ''cat.jpg'', photo_fields = [(''title'', JStr ''Cat'')]\<rparr>"

definition plain_photo :: photo where
  "plain_photo = \<lparr>photo_id = ''p2'', imageUrl = None, imagePath = None,
                  photo_fields = [(''title'', JStr ''No image'')]\<rparr>"

definition world0 :: world where
  "world0 = \<lparr>db = [(''p1'', cat_photo), (''p2'', plain_photo)],
             blobs = [''https://blob.test/cat.jpg''], blob_store_down = False,
             pending_conflicts = 0, clock = 1700000000000\<rparr>"

definition world_blob_down :: world where
  "world_blob_down = world0\<lparr>blob_store_down := True\<rparr>"

definition world_conflicts :: world where
  "world_conflicts = world0\<lparr>pending_conflicts := 3\<rparr>"

definition evil_body :: jsobject where
  "evil_body = [(''id'', JStr ''p2''), (''_id'', JStr ''p2''), (''title'', JStr ''New'')]"

definition big_chunk :: buffer where
  "big_chunk = replicate MAX_FILE_SIZE 0"

definition big_file :: file_part where
  "big_file = \<lparr>info = \<lparr>filename = ''big.png'', mimeType = ''image/png''\<rparr>,
               chunks = [big_chunk, [1], [2]]\<rparr>"

definition pdf_file :: file_part where
  "pdf_file = \<lparr>info = \<lparr>filename = ''doc.pdf'', mimeType = ''application/pdf''\<rparr>,
               chunks = [[0x25, 0x50, 0x44, 0x46]]\<rparr>"

definition svg_file :: file_part where
  "svg_file = \<lparr>info = \<lparr>filename = ''logo.svg'', mimeType = ''image/svg+xml''\<rparr>,
               chunks = [[0x3C, 0x73], [0x76, 0x67, 0x3E]]\<rparr>"

definition png_file :: file_part where
  "png_file = \<lparr>info = \<lparr>filename = ''cat.png'', mimeType = ''image/png''\<rparr>,
               chunks = [[0x89, 0x50], [0x4E, 0x47]]\<rparr>"

text \<open>What \<^verbatim>\<open>removeImage\<close> of the front end sends: DELETE /api/image with a JSON body.\<close>

definition json_refused :: js_error where
  "json_refused =
     \<lparr>err_code = None, err_message = ''Unsupported content type: application/json''\<rparr>"

definition delete_by_body :: request where
  "delete_by_body =
     \<lparr>req_method = DELETE, req_path = [''image''],
      req_body = Some [(''url'', JStr ''https://blob.test/cat.jpg'')],
      req_content = Unsupported json_refused\<rparr>"

section \<open>Deleting a record\<close>

lemma responses_append: "responses (xs @ ys) = responses xs @ responses ys"
  by (induction xs rule: responses.induct) simp_all

lemma blob_deletes_append: "blob_deletes (xs @ ys) = blob_deletes xs @ blob_deletes ys"
  by (induction xs rule: blob_deletes.induct) simp_all

lemma delete_image_of_events:
  "fst (delete_image_of S (Some ph) w) =
     (case imageUrl ph of
        None \<Rightarrow> []
      | Some u \<Rightarrow>
          if u = [] then []
          else [BlobDel u (fst (blob_del S u w)),
                (case fst (blob_del S u w) of
                   Inr x \<Rightarrow> ConsoleLog ''Deleted image:''
                 | Inl blobError \<Rightarrow> ConsoleError ''Failed to delete image:'' blobError)])"
  by (simp add: delete_image_of_def optional_imageUrl_def
        split: option.splits prod.splits sum.splits)

lemma delete_image_of_responses: "responses (fst (delete_image_of S p w)) = []"
  by (simp add: delete_image_of_def split: option.splits prod.splits sum.splits)

lemma delete_image_of_blob_deletes:
  "blob_deletes (fst (delete_image_of S p w)) =
     (case optional_imageUrl p of None \<Rightarrow> [] | Some u \<Rightarrow> if u = [] then [] else [u])"
  by (simp add: delete_image_of_def split: option.splits prod.splits sum.splits)

lemma delete_data_found:
  assumes "prisma_findUnique S pid w = (Inr ph, w1)"
    and "prisma_delete S pid w1 = (Inr result, w2)"
  shows "fst (delete_data S pid w) =
           [DbFindUnique pid (Inr ph), DbDelete pid (Inr result)]
           @ fst (delete_image_of S ph w2) @ [Respond 200 (PhotoBody result)]"
  using assms by (simp add: delete_data_def split: prod.splits)

text \<open>
  C1. A DELETE /data/:id on an existing record (the store finds the photo and deletes it):
  the store's delete comes first; then the blob store's \<^verbatim>\<open>del\<close> is called exactly once,
  with the photo's \<^verbatim>\<open>imageUrl\<close>, when that field is a non-empty string, and not at all
  when it is null or empty; whatever \<^verbatim>\<open>del\<close> returns or throws, the one response is
  the deleted record with status 200, and a thrown error is logged.
\<close>

theorem delete_data_existing_record:
  assumes found: "prisma_findUnique S pid w = (Inr (Some ph), w1)"
    and deleted: "prisma_delete S pid w1 = (Inr result, w2)"
  shows "fst (delete_data S pid w) =
           [DbFindUnique pid (Inr (Some ph)), DbDelete pid (Inr result)]
           @ (case imageUrl ph of
                None \<Rightarrow> []
              | Some u \<Rightarrow>
                  if u = [] then []
                  else [BlobDel u (fst (blob_del S u w2)),
                        (case fst (blob_del S u w2) of
                           Inr x \<Rightarrow> ConsoleLog ''Deleted image:''
                         | Inl blobError \<Rightarrow> ConsoleError ''Failed to delete image:'' blobError)])
           @ [Respond 200 (PhotoBody result)]
         \<and> responses (fst (delete_data S pid w)) = [(200, PhotoBody result)]
         \<and> blob_deletes (fst (delete_data S pid w)) =
             (case imageUrl ph of None \<Rightarrow> [] | Some u \<Rightarrow> if u = [] then [] else [u])"
proof (intro conjI)
  note unfold = delete_data_found [OF found deleted]
  show "fst (delete_data S pid w) =
           [DbFindUnique pid (Inr (Some ph)), DbDelete pid (Inr result)]
           @ (case imageUrl ph of
                None \<Rightarrow> []
              | Some u \<Rightarrow>
                  if u = [] then []
                  else [BlobDel u (fst (blob_del S u w2)),
                        (case fst (blob_del S u w2) of
                           Inr x \<Rightarrow> ConsoleLog ''Deleted image:''
                         | Inl blobError \<Rightarrow> ConsoleError ''Failed to delete image:'' blobError)])
           @ [Respond 200 (PhotoBody result)]"
    unfolding unfold delete_image_of_events ..
  show "responses (fst (delete_data S pid w)) = [(200, PhotoBody result)]"
    unfolding unfold by (simp add: responses_append delete_image_of_responses)
  show "blob_deletes (fst (delete_data S pid w)) =
           (case imageUrl ph of None \<Rightarrow> [] | Some u \<Rightarrow> if u = [] then [] else [u])"
    unfolding unfold
    by (simp add: blob_deletes_append delete_image_of_blob_deletes optional_imageUrl_def)
qed

text \<open>
  The theorem at work: photo \<open>p1\<close> has an image and the blob store is down. The record is
  deleted, \<^verbatim>\<open>del\<close> is called once and throws, the error is logged, the response is 200.
\<close>

theorem delete_data_existing_record_witness:
  "prisma_findUnique mem_services ''p1'' world_blob_down = (Inr (Some cat_photo), world_blob_down)
   \<and> prisma_delete mem_services ''p1'' world_blob_down
       = (Inr cat_photo, world_blob_down\<lparr>db := [(''p2'', plain_photo)]\<rparr>)
   \<and> fst (delete_data mem_services ''p1'' world_blob_down) =
       [DbFindUnique ''p1'' (Inr (Some cat_photo)), DbDelete ''p1'' (Inr cat_photo),
        BlobDel ''https://blob.test/cat.jpg'' (Inl store_unavailable),
        ConsoleError ''Failed to delete image:'' store_unavailable,
        Respond 200 (PhotoBody cat_photo)]
   \<and> responses (fst (delete_data mem_services ''p1'' world_blob_down)) = [(200, PhotoBody cat_photo)]
   \<and> blob_deletes (fst (delete_data mem_services ''p1'' world_blob_down))
       = [''https://blob.test/cat.jpg'']"
proof -
  have found: "prisma_findUnique mem_services ''p1'' world_blob_down
                 = (Inr (Some cat_photo), world_blob_down)"
    by (simp add: mem_services_def mem_findUnique_def world_blob_down_def world0_def)
  have deleted: "prisma_delete mem_services ''p1'' world_blob_down
                 = (Inr cat_photo, world_blob_down\<lparr>db := [(''p2'', plain_photo)]\<rparr>)"
    by (simp add: mem_services_def mem_delete_def world_blob_down_def world0_def)
  have del: "blob_del mem_services ''https://blob.test/cat.jpg''
               (world_blob_down\<lparr>db := [(''p2'', plain_photo)]\<rparr>)
             = (Inl store_unavailable, world_blob_down\<lparr>db := [(''p2'', plain_photo)]\<rparr>)"
    by (simp add: mem_services_def mem_del_def world_blob_down_def world0_def)
  have url: "imageUrl cat_photo = Some ''https://blob.test/cat.jpg''"
    by (simp add: cat_photo_def)
  show ?thesis
    using delete_data_existing_record [OF found deleted] found deleted
    by (simp add: del url)
qed

text \<open>
  C10. A DELETE /data/:id whose identifier matches no record (the store finds nothing and
  its delete throws): the error reaches the handler's one \<^verbatim>\<open>catch\<close>, the response is
  500 with \<^verbatim>\<open>{error: 'Failed to delete record', details}\<close>, not 404, and the blob
  store is not called.
\<close>

theorem delete_data_missing_record:
  assumes missing: "prisma_findUnique S pid w = (Inr None, w1)"
    and thrown: "prisma_delete S pid w1 = (Inl err, w2)"
  shows "delete_data S pid w =
           ([DbFindUnique pid (Inr None), DbDelete pid (Inl err),
             ConsoleError ''DELETE /data/:id error:'' err,
             Respond 500 (ErrorDetailsBody ''Failed to delete record''
                            (if err_message err \<noteq> [] then DetailsMessage (err_message err)
                             else DetailsError err))], w2)
         \<and> responses (fst (delete_data S pid w)) =
             [(500, ErrorDetailsBody ''Failed to delete record'' (error_details err))]
         \<and> blob_deletes (fst (delete_data S pid w)) = []"
  using assms by (simp add: delete_data_def delete_data_catch_def error_details_def)

theorem delete_data_missing_record_witness:
  "prisma_findUnique mem_services ''nope'' world0 = (Inr None, world0)
   \<and> prisma_delete mem_services ''nope'' world0 = (Inl not_found, world0)
   \<and> delete_data mem_services ''nope'' world0 =
       ([DbFindUnique ''nope'' (Inr None), DbDelete ''nope'' (Inl not_found),
         ConsoleError ''DELETE /data/:id error:'' not_found,
         Respond 500 (ErrorDetailsBody ''Failed to delete record''
                        (DetailsMessage ''Record to delete does not exist.''))], world0)
   \<and> blob_deletes (fst (delete_data mem_services ''nope'' world0)) = []"
proof -
  have missing: "prisma_findUnique mem_services ''nope'' world0 = (Inr None, world0)"
    by (simp add: mem_services_def mem_findUnique_def world0_def)
  have thrown: "prisma_delete mem_services ''nope'' world0 = (Inl not_found, world0)"
    by (simp add: mem_services_def mem_delete_def world0_def)
  show ?thesis
    using delete_data_missing_record [OF missing thrown] missing thrown
    by (simp add: not_found_def)
qed

section \<open>Updating a record\<close>

lemma put_ok_retry:
  assumes "put_ok pid d n es" and "err_code err = Some ''P2034''"
  shows "put_ok pid d (Suc n) (DbUpdate pid d (Inl err) # SetTimeout 100 # es)"
  using assms
  by (auto simp: put_ok_def Let_def is_conflict_def put_response_def Suc_diff_le
      simp flip: replicate_Suc split: if_splits)

lemma put_data_loop_ok:
  "attempt < 3 \<Longrightarrow> put_ok pid d (3 - attempt) (fst (put_data_loop S pid d attempt w))"
proof (induction S pid d attempt w rule: put_data_loop.induct)
  case (1 S pid d attempt w)
  obtain r w' where upd: "prisma_update S pid d w = (r, w')"
    by (cases "prisma_update S pid d w")
  show ?case
  proof (cases r)
    case (Inr updated)
    with upd "1.prems" show ?thesis
      by (simp add: put_data_loop.simps [of S pid d attempt w] put_ok_def
            is_conflict_def put_response_def)
  next
    case (Inl err)
    show ?thesis
    proof (cases "err_code err = Some ''P2034''")
      case False
      with upd Inl "1.prems" show ?thesis
        by (simp add: put_data_loop.simps [of S pid d attempt w] put_ok_def
              is_conflict_def put_response_def)
    next
      case True
      show ?thesis
      proof (cases "attempt < 2")
        case False
        with "1.prems" have "attempt = 2" by simp
        with upd Inl True show ?thesis
          by (simp add: put_data_loop.simps [of S pid d 2 w] put_ok_def
                is_conflict_def put_response_def)
      next
        case less: True
        obtain es w'' where rec: "put_data_loop S pid d (Suc attempt) w' = (es, w'')"
          by (cases "put_data_loop S pid d (Suc attempt) w'")
        have "put_ok pid d (3 - Suc attempt) (fst (put_data_loop S pid d (Suc attempt) w'))"
          using "1.IH" [OF "1.prems" upd [symmetric] Inl True less] less by simp
        then have "put_ok pid d (Suc (3 - Suc attempt))
                     (DbUpdate pid d (Inl err) # SetTimeout 100 # es)"
          using rec True by (simp add: put_ok_retry)
        moreover have "Suc (3 - Suc attempt) = 3 - attempt" using less by simp
        moreover have "fst (put_data_loop S pid d attempt w)
                         = DbUpdate pid d (Inl err) # SetTimeout 100 # es"
          using upd Inl True less rec "1.prems"
          by (simp add: put_data_loop.simps [of S pid d attempt w])
        ultimately show ?thesis by simp
      qed
    qed
  qed
qed

lemma put_data_ok:
  "put_ok pid (rest_without [''id'', ''_id''] (case rb of None \<Rightarrow> [] | Some b \<Rightarrow> b)) 3
     (fst (put_data S pid rb w))"
  using put_data_loop_ok [of 0] by (simp add: put_data_def)

text \<open>
  C4. PUT /data/:id: the store's update is attempted at least once and at most three
  times; between two attempts the handler waits 100 ms; every attempt but the last
  ended in the write conflict P2034, so a retry happens only after a conflict; a conflict
  on the last attempt means the three attempts are spent, and the response is then 409;
  the handler sends exactly one response (200 with the updated record, 409, or 500) and
  leaves no error unhandled. The loop is a total function: every run ends.
\<close>

theorem put_data_bounded_retry:
  "(let tr = fst (put_data S pid rb w); os = update_outcomes tr in
      os \<noteq> [] \<and> length os \<le> 3
      \<and> timeouts tr = replicate (length os - 1) 100
      \<and> (\<forall>r \<in> set (butlast os). is_conflict r)
      \<and> (is_conflict (last os) \<longrightarrow> length os = 3)
      \<and> responses tr = [put_response (last os)]
      \<and> unhandled tr = [])"
  using put_data_ok [of pid rb S w] by (simp add: put_ok_def Let_def)

text \<open>Three conflicts in a row: three updates, two waits, and the response 409.\<close>

lemma put_data_three_conflicts:
  "fst (put_data mem_services ''p1'' (Some evil_body) world_conflicts) =
     [DbUpdate ''p1'' [(''title'', JStr ''New'')] (Inl write_conflict), SetTimeout 100,
      DbUpdate ''p1'' [(''title'', JStr ''New'')] (Inl write_conflict), SetTimeout 100,
      DbUpdate ''p1'' [(''title'', JStr ''New'')] (Inl write_conflict),
      Respond 409 (ErrorBody ''Write conflict, please retry'')]"
  by (simp add: put_data_def rest_without_def evil_body_def put_data_loop.simps
        mem_services_def mem_update_def world_conflicts_def world0_def write_conflict_def)

theorem put_data_bounded_retry_witness:
  "update_outcomes (fst (put_data mem_services ''p1'' (Some evil_body) world_conflicts))
     = [Inl write_conflict, Inl write_conflict, Inl write_conflict]
   \<and> is_conflict (Inl write_conflict)
   \<and> (let tr = fst (put_data mem_services ''p1'' (Some evil_body) world_conflicts);
          os = update_outcomes tr in
      os \<noteq> [] \<and> length os \<le> 3
      \<and> timeouts tr = replicate (length os - 1) 100
      \<and> (\<forall>r \<in> set (butlast os). is_conflict r)
      \<and> (is_conflict (last os) \<longrightarrow> length os = 3)
      \<and> responses tr = [put_response (last os)]
      \<and> unhandled tr = [])"
proof -
  have os: "update_outcomes (fst (put_data mem_services ''p1'' (Some evil_body) world_conflicts))
     = [Inl write_conflict, Inl write_conflict, Inl write_conflict]"
    by (simp add: put_data_three_conflicts)
  have c: "is_conflict (Inl write_conflict)"
    by (simp add: is_conflict_def write_conflict_def)
  show ?thesis
    by (intro conjI os c put_data_bounded_retry)
qed

section \<open>The identifier never comes from the request body\<close>

lemma post_data_writes:
  "store_writes (fst (post_data S rb w)) =
     (case rb of None \<Rightarrow> [] | Some b \<Rightarrow> [filter (\<lambda>kv. fst kv \<noteq> ''id'') b])"
  by (simp add: post_data_def post_data_catch_def rest_without_def Let_def
        split: option.splits prod.splits sum.splits)

lemma put_data_writes:
  "set (store_writes (fst (put_data S pid rb w))) =
     {filter (\<lambda>kv. fst kv \<noteq> ''id'' \<and> fst kv \<noteq> ''_id'')
        (case rb of None \<Rightarrow> [] | Some b \<Rightarrow> b)}
   \<and> set (update_targets (fst (put_data S pid rb w))) = {pid}"
  using put_data_ok [of pid rb S w] by (simp add: put_ok_def Let_def rest_without_def)

lemma stripped_one:
  "key \<notin> fst ` set (filter (\<lambda>kv. fst kv \<noteq> key) b)
   \<and> (k \<noteq> key \<longrightarrow> ((k, v) \<in> set (filter (\<lambda>kv. fst kv \<noteq> key) b) \<longleftrightarrow> (k, v) \<in> set b))"
  by auto

lemma stripped_two:
  "key \<notin> fst ` set (filter (\<lambda>kv. fst kv \<noteq> key \<and> fst kv \<noteq> key2) b)
   \<and> (k \<noteq> key \<and> k \<noteq> key2 \<longrightarrow>
        ((k, v) \<in> set (filter (\<lambda>kv. fst kv \<noteq> key \<and> fst kv \<noteq> key2) b) \<longleftrightarrow> (k, v) \<in> set b))"
  by auto

text \<open>
  What the two handlers do strip: POST /data sends to the store's create the request
  body without its \<^verbatim>\<open>id\<close> property; PUT /data/:id sends to every update the body
  without \<^verbatim>\<open>id\<close> and \<^verbatim>\<open>_id\<close>, and addresses the record named in the URL. No data that
  reaches the store has an \<^verbatim>\<open>id\<close>, and every property other than these two is passed
  through unchanged.
\<close>

lemma id_key_stripped:
  "store_writes (fst (post_data S rb w)) =
     (case rb of None \<Rightarrow> [] | Some b \<Rightarrow> [filter (\<lambda>kv. fst kv \<noteq> ''id'') b])
   \<and> set (store_writes (fst (put_data S pid rb w))) =
       {filter (\<lambda>kv. fst kv \<noteq> ''id'' \<and> fst kv \<noteq> ''_id'')
          (case rb of None \<Rightarrow> [] | Some b \<Rightarrow> b)}
   \<and> set (update_targets (fst (put_data S pid rb w))) = {pid}
   \<and> (\<forall>d \<in> set (store_writes (fst (post_data S rb w)))
             \<union> set (store_writes (fst (put_data S pid rb w))).
         ''id'' \<notin> fst ` set d
         \<and> (\<forall>b k v. rb = Some b \<and> k \<noteq> ''id'' \<and> k \<noteq> ''_id'' \<longrightarrow>
               ((k, v) \<in> set d \<longleftrightarrow> (k, v) \<in> set b)))"
proof (intro conjI ballI)
  show "store_writes (fst (post_data S rb w)) =
     (case rb of None \<Rightarrow> [] | Some b \<Rightarrow> [filter (\<lambda>kv. fst kv \<noteq> ''id'') b])"
    by (rule post_data_writes)
  show "set (store_writes (fst (put_data S pid rb w))) =
       {filter (\<lambda>kv. fst kv \<noteq> ''id'' \<and> fst kv \<noteq> ''_id'')
          (case rb of None \<Rightarrow> [] | Some b \<Rightarrow> b)}"
    by (rule put_data_writes [THEN conjunct1])
  show "set (update_targets (fst (put_data S pid rb w))) = {pid}"
    by (rule put_data_writes [THEN conjunct2])
next
  fix d
  assume "d \<in> set (store_writes (fst (post_data S rb w)))
             \<union> set (store_writes (fst (put_data S pid rb w)))"
  then have d: "d \<in> set (case rb of None \<Rightarrow> [] | Some b \<Rightarrow> [filter (\<lambda>kv. fst kv \<noteq> ''id'') b])
      \<or> d = filter (\<lambda>kv. fst kv \<noteq> ''id'' \<and> fst kv \<noteq> ''_id'')
          (case rb of None \<Rightarrow> [] | Some b \<Rightarrow> b)"
    by (simp only: post_data_writes put_data_writes Un_iff singleton_iff)
  have both: "''id'' \<notin> fst ` set d
         \<and> (\<forall>b k v. rb = Some b \<and> k \<noteq> ''id'' \<and> k \<noteq> ''_id'' \<longrightarrow>
               ((k, v) \<in> set d \<longleftrightarrow> (k, v) \<in> set b))"
  proof (cases rb)
    case None
    with d have "d = []" by simp
    with None show ?thesis by simp
  next
    case (Some b)
    with d consider
      (post) "d = filter (\<lambda>kv. fst kv \<noteq> ''id'') b"
      | (put) "d = filter (\<lambda>kv. fst kv \<noteq> ''id'' \<and> fst kv \<noteq> ''_id'') b"
      by (simp only: option.case list.set singleton_iff empty_iff) blast
    then show ?thesis
    proof cases
      case post
      show ?thesis
        unfolding post Some using stripped_one [of "''id''" b] by (simp only: option.inject) blast
    next
      case put
      show ?thesis
        unfolding put Some using stripped_two [of "''id''" "''_id''" b]
        by (simp only: option.inject) blast
    qed
  qed
  from both show "''id'' \<notin> fst ` set d" ..
  from both show "\<forall>b k v. rb = Some b \<and> k \<noteq> ''id'' \<and> k \<noteq> ''_id'' \<longrightarrow>
               ((k, v) \<in> set d \<longleftrightarrow> (k, v) \<in> set b)" ..
qed

lemma id_key_stripped_run:
  "store_writes (fst (post_data mem_services (Some evil_body) world0))
     = [[(''_id'', JStr ''p2''), (''title'', JStr ''New'')]]
   \<and> set (store_writes (fst (put_data mem_services ''p1'' (Some evil_body) world0)))
     = {[(''title'', JStr ''New'')]}
   \<and> set (update_targets (fst (put_data mem_services ''p1'' (Some evil_body) world0))) = {''p1''}
   \<and> ''id'' \<notin> fst ` set [(''_id'', JStr ''p2''), (''title'', JStr ''New'')]
   \<and> ''id'' \<notin> fst ` set [(''title'', JStr ''New'')]"
proof -
  note inst = id_key_stripped [of mem_services "Some evil_body" world0 "''p1''"]
  have post: "store_writes (fst (post_data mem_services (Some evil_body) world0))
     = [[(''_id'', JStr ''p2''), (''title'', JStr ''New'')]]"
    using inst [THEN conjunct1] by (simp add: evil_body_def)
  have put: "set (store_writes (fst (put_data mem_services ''p1'' (Some evil_body) world0)))
     = {[(''title'', JStr ''New'')]}"
    using inst [THEN conjunct2, THEN conjunct1] by (simp add: evil_body_def)
  note target = inst [THEN conjunct2, THEN conjunct2, THEN conjunct1]
  note keys = inst [THEN conjunct2, THEN conjunct2, THEN conjunct2, rule_format, THEN conjunct1]
  have k1: "''id'' \<notin> fst ` set [(''_id'', JStr ''p2''), (''title'', JStr ''New'')]"
    using keys [of "[(''_id'', JStr ''p2''), (''title'', JStr ''New'')]"] post by simp
  have k2: "''id'' \<notin> fst ` set [(''title'', JStr ''New'')]"
    using keys [of "[(''title'', JStr ''New'')]"] put by simp
  show ?thesis
    by (intro conjI post put target k1 k2)
qed

lemma post_data_keeps_other_keys:
  assumes "(k, v) \<in> set b" and "k \<noteq> ''id''"
  shows "store_writes (fst (post_data S (Some b) w)) \<noteq> []
         \<and> (k, v) \<in> set (hd (store_writes (fst (post_data S (Some b) w))))"
  using assms by (simp add: post_data_writes)

text \<open>
  C8. The claim that every client-supplied identifier field is stripped fails on
  POST /data: the handler destructures \<^verbatim>\<open>id\<close> only, so for the body
  \<^verbatim>\<open>{id: 'p2', _id: 'p2', title: 'New'}\<close> the data it hands to the store's create still
  has the client's \<^verbatim>\<open>_id\<close>, for every store. PUT /data/:id, given the same body,
  strips both \<^verbatim>\<open>id\<close> and \<^verbatim>\<open>_id\<close> from the data of every update.
\<close>

theorem post_data_keeps_underscore_id:
  "store_writes (fst (post_data S (Some evil_body) w))
     = [[(''_id'', JStr ''p2''), (''title'', JStr ''New'')]]
   \<and> set (store_writes (fst (put_data S pid (Some evil_body) w)))
     = {[(''title'', JStr ''New'')]}"
proof
  show "store_writes (fst (post_data S (Some evil_body) w))
     = [[(''_id'', JStr ''p2''), (''title'', JStr ''New'')]]"
    by (simp add: post_data_writes evil_body_def)
  show "set (store_writes (fst (put_data S pid (Some evil_body) w)))
     = {[(''title'', JStr ''New'')]}"
    using put_data_writes [of S pid "Some evil_body" w, THEN conjunct1]
    by (simp add: evil_body_def)
qed

section \<open>Uploading an image\<close>

lemma sharp_calls_append: "sharp_calls (xs @ ys) = sharp_calls xs @ sharp_calls ys"
  by (induction xs rule: sharp_calls.induct) simp_all

lemma blob_puts_append: "blob_puts (xs @ ys) = blob_puts xs @ blob_puts ys"
  by (induction xs rule: blob_puts.induct) simp_all

lemma responses_FileData [simp]: "responses (map (\<lambda>ch. FileData (length ch)) cs) = []"
  by (induction cs) simp_all

lemma sharp_calls_FileData [simp]: "sharp_calls (map (\<lambda>ch. FileData (length ch)) cs) = []"
  by (induction cs) simp_all

lemma blob_puts_FileData [simp]: "blob_puts (map (\<lambda>ch. FileData (length ch)) cs) = []"
  by (induction cs) simp_all

lemma on_data_within:
  "fileSize + sum_list (map length incoming) \<le> MAX_FILE_SIZE \<Longrightarrow>
   on_data incoming collected fileSize =
     (map (\<lambda>ch. FileData (length ch)) incoming, Some (collected @ incoming))"
  by (induction incoming arbitrary: collected fileSize) (simp_all add: add.assoc)

lemma on_data_over:
  "fileSize \<le> MAX_FILE_SIZE \<Longrightarrow> MAX_FILE_SIZE < fileSize + sum_list (map length incoming) \<Longrightarrow>
   \<exists>pre c rest. incoming = pre @ c # rest
     \<and> fileSize + sum_list (map length pre) \<le> MAX_FILE_SIZE
     \<and> MAX_FILE_SIZE < fileSize + sum_list (map length pre) + length c
     \<and> on_data incoming collected fileSize =
         (map (\<lambda>ch. FileData (length ch)) (pre @ [c])
            @ [FileDestroy, Respond 400 (ErrorBody ''File too large. Maximum size is 10MB.'')],
          None)"
proof (induction incoming arbitrary: collected fileSize)
  case Nil
  then show ?case by simp
next
  case (Cons chunk incoming)
  show ?case
  proof (cases "MAX_FILE_SIZE < fileSize + length chunk")
    case True
    with Cons.prems(1) show ?thesis
      by (intro exI [of _ "[]"] exI [of _ chunk] exI [of _ incoming]) simp
  next
    case False
    then have le: "fileSize + length chunk \<le> MAX_FILE_SIZE" by simp
    have over: "MAX_FILE_SIZE < (fileSize + length chunk) + sum_list (map length incoming)"
      using Cons.prems(2) by (simp add: add.assoc)
    from Cons.IH [OF le over, of "collected @ [chunk]"]
    obtain pre c rest where
      split: "incoming = pre @ c # rest"
      and fits: "fileSize + length chunk + sum_list (map length pre) \<le> MAX_FILE_SIZE"
      and crosses: "MAX_FILE_SIZE < fileSize + length chunk + sum_list (map length pre) + length c"
      and run: "on_data incoming (collected @ [chunk]) (fileSize + length chunk) =
         (map (\<lambda>ch. FileData (length ch)) (pre @ [c])
            @ [FileDestroy, Respond 400 (ErrorBody ''File too large. Maximum size is 10MB.'')],
          None)"
      by blast
    have "chunk # incoming = (chunk # pre) @ c # rest" using split by simp
    moreover have "fileSize + sum_list (map length (chunk # pre)) \<le> MAX_FILE_SIZE"
      using fits by (simp add: add.assoc)
    moreover have "MAX_FILE_SIZE < fileSize + sum_list (map length (chunk # pre)) + length c"
      using crosses by (simp add: add.assoc)
    moreover have "on_data (chunk # incoming) collected fileSize =
         (map (\<lambda>ch. FileData (length ch)) ((chunk # pre) @ [c])
            @ [FileDestroy, Respond 400 (ErrorBody ''File too large. Maximum size is 10MB.'')],
          None)"
      using False run by simp
    ultimately show ?thesis
      by (intro exI [of _ "chunk # pre"] exI [of _ c] exI [of _ rest]) (simp only: simp_thms)
  qed
qed

lemma length_big_chunk: "length big_chunk = MAX_FILE_SIZE"
  by (simp add: big_chunk_def)

text \<open>
  C2. A POST /api/upload whose file is larger than 10 MiB is answered 400 and never
  reaches the transcoder or the blob store. When the declared type is allowed, the
  handler reads the chunks up to the first one that takes the running size over the
  limit, destroys the stream at that chunk and responds at once: what follows that
  chunk is never read.
\<close>

theorem post_upload_too_large:
  assumes over: "MAX_FILE_SIZE < sum_list (map length (chunks file))"
  shows "(\<exists>msg. responses (fst (post_upload S file w)) = [(400, ErrorBody msg)])
         \<and> sharp_calls (fst (post_upload S file w)) = []
         \<and> blob_puts (fst (post_upload S file w)) = []
         \<and> snd (post_upload S file w) = w
         \<and> (mimeType (info file) \<in> set ALLOWED_TYPES \<longrightarrow>
              (\<exists>pre c rest. chunks file = pre @ c # rest
                 \<and> sum_list (map length pre) \<le> MAX_FILE_SIZE
                 \<and> MAX_FILE_SIZE < sum_list (map length pre) + length c
                 \<and> fst (post_upload S file w) =
                     map (\<lambda>ch. FileData (length ch)) (pre @ [c])
                       @ [FileDestroy,
                          Respond 400 (ErrorBody ''File too large. Maximum size is 10MB.'')]))"
proof (cases "mimeType (info file) \<in> set ALLOWED_TYPES")
  case False
  then show ?thesis by (simp add: post_upload_def)
next
  case True
  from on_data_over [of 0 "chunks file" "[]"] over
  obtain pre c rest where
    split: "chunks file = pre @ c # rest"
    and fits: "sum_list (map length pre) \<le> MAX_FILE_SIZE"
    and crosses: "MAX_FILE_SIZE < sum_list (map length pre) + length c"
    and run: "on_data (chunks file) [] 0 =
         (map (\<lambda>ch. FileData (length ch)) (pre @ [c])
            @ [FileDestroy, Respond 400 (ErrorBody ''File too large. Maximum size is 10MB.'')],
          None)"
    by auto
  have tr: "post_upload S file w =
      (map (\<lambda>ch. FileData (length ch)) (pre @ [c])
         @ [FileDestroy, Respond 400 (ErrorBody ''File too large. Maximum size is 10MB.'')], w)"
    using True run by (simp add: post_upload_def)
  have "\<exists>pre c rest. chunks file = pre @ c # rest
                 \<and> sum_list (map length pre) \<le> MAX_FILE_SIZE
                 \<and> MAX_FILE_SIZE < sum_list (map length pre) + length c
                 \<and> fst (post_upload S file w) =
                     map (\<lambda>ch. FileData (length ch)) (pre @ [c])
                       @ [FileDestroy,
                          Respond 400 (ErrorBody ''File too large. Maximum size is 10MB.'')]"
    using split fits crosses
    by (intro exI [of _ pre] exI [of _ c] exI [of _ rest]) (simp only: tr fst_conv simp_thms)
  moreover have "responses (fst (post_upload S file w))
      = [(400, ErrorBody ''File too large. Maximum size is 10MB.'')]"
    unfolding tr by (simp add: responses_append del: map_append)
  moreover have "sharp_calls (fst (post_upload S file w)) = []"
    unfolding tr by (simp add: sharp_calls_append del: map_append)
  moreover have "blob_puts (fst (post_upload S file w)) = []"
    unfolding tr by (simp add: blob_puts_append del: map_append)
  moreover have "snd (post_upload S file w) = w"
    unfolding tr by simp
  ultimately show ?thesis by simp
qed

theorem post_upload_too_large_witness:
  "MAX_FILE_SIZE < sum_list (map length (chunks big_file))
   \<and> fst (post_upload mem_services big_file world0) =
       [FileData MAX_FILE_SIZE, FileData 1, FileDestroy,
        Respond 400 (ErrorBody ''File too large. Maximum size is 10MB.'')]
   \<and> sharp_calls (fst (post_upload mem_services big_file world0)) = []"
proof -
  have over: "MAX_FILE_SIZE < sum_list (map length (chunks big_file))"
    by (simp add: big_file_def length_big_chunk)
  have allowed: "mimeType (info big_file) \<in> set ALLOWED_TYPES"
    by (simp add: big_file_def ALLOWED_TYPES_def)
  from post_upload_too_large [OF over, of mem_services world0] allowed
  obtain pre c rest where
    split: "chunks big_file = pre @ c # rest"
    and fits: "sum_list (map length pre) \<le> MAX_FILE_SIZE"
    and crosses: "MAX_FILE_SIZE < sum_list (map length pre) + length c"
    and tr: "fst (post_upload mem_services big_file world0) =
                     map (\<lambda>ch. FileData (length ch)) (pre @ [c])
                       @ [FileDestroy,
                          Respond 400 (ErrorBody ''File too large. Maximum size is 10MB.'')]"
    and calls: "sharp_calls (fst (post_upload mem_services big_file world0)) = []"
    by blast
  have "pre = [big_chunk] \<and> c = [1]"
  proof (cases pre)
    case Nil
    with crosses split show ?thesis by (simp add: big_file_def length_big_chunk)
  next
    case (Cons p ps)
    note outer = Cons
    show ?thesis
    proof (cases ps)
      case Nil
      with outer split show ?thesis by (simp add: big_file_def)
    next
      case (Cons q qs)
      with outer split fits show ?thesis
        by (auto simp: big_file_def length_big_chunk Cons_eq_append_conv)
    qed
  qed
  with tr calls over show ?thesis by (simp add: length_big_chunk)
qed

text \<open>
  C3. A file part whose declared MIME type is not one of image/jpeg, image/png,
  image/webp and image/svg+xml is answered 400 on the declared type alone: the handler
  reads no chunk, and calls neither the transcoder nor the blob store.
\<close>

theorem post_upload_disallowed_type:
  assumes "mimeType (info file) \<notin> set ALLOWED_TYPES"
  shows "post_upload S file w =
           ([Respond 400 (ErrorBody ''Invalid file type. Only images allowed.'')], w)
         \<and> sharp_calls (fst (post_upload S file w)) = []
         \<and> blob_puts (fst (post_upload S file w)) = []"
  using assms by (simp add: post_upload_def)

theorem post_upload_disallowed_type_witness:
  "mimeType (info pdf_file) \<notin> set ALLOWED_TYPES
   \<and> post_upload mem_services pdf_file world0 =
       ([Respond 400 (ErrorBody ''Invalid file type. Only images allowed.'')], world0)
   \<and> sharp_calls (fst (post_upload mem_services pdf_file world0)) = []
   \<and> blob_puts (fst (post_upload mem_services pdf_file world0)) = []"
proof -
  have bad: "mimeType (info pdf_file) \<notin> set ALLOWED_TYPES"
    by (simp add: pdf_file_def ALLOWED_TYPES_def)
  show ?thesis
    by (rule conjI [OF bad post_upload_disallowed_type [OF bad]])
qed

lemma allowed_svg:
  assumes "mt \<in> set ALLOWED_TYPES" and "str_includes mt ''svg''"
  shows "mt = ''image/svg+xml''"
proof -
  have "\<not> str_includes ''image/jpeg'' ''svg''" by simp
  moreover have "\<not> str_includes ''image/png'' ''svg''" by simp
  moreover have "\<not> str_includes ''image/webp'' ''svg''" by simp
  ultimately show ?thesis using assms by (auto simp: ALLOWED_TYPES_def)
qed

lemma raster_not_svg:
  assumes "mt \<in> {''image/jpeg'', ''image/png'', ''image/webp''}"
  shows "mt \<in> set ALLOWED_TYPES \<and> \<not> str_includes mt ''svg''"
proof -
  have "\<not> str_includes ''image/jpeg'' ''svg''" by simp
  moreover have "\<not> str_includes ''image/png'' ''svg''" by simp
  moreover have "\<not> str_includes ''image/webp'' ''svg''" by simp
  ultimately show ?thesis using assms by (auto simp: ALLOWED_TYPES_def)
qed

lemma svg_includes: "str_includes ''image/svg+xml'' ''svg''"
  by simp

lemma post_upload_within:
  assumes "mimeType (info file) \<in> set ALLOWED_TYPES"
    and "sum_list (map length (chunks file)) \<le> MAX_FILE_SIZE"
  shows "post_upload S file w =
           (map (\<lambda>ch. FileData (length ch)) (chunks file)
              @ fst (on_end S (info file) (chunks file) w),
            snd (on_end S (info file) (chunks file) w))"
  using assms on_data_within [of 0 "chunks file" "[]"]
  by (simp add: post_upload_def split: prod.splits)

lemma on_end_processed:
  assumes "process_image S i (concat collected) w = (es, Inr (processedBuffer, ct), w1)"
  shows "fst (on_end S i collected w) =
           es @ [BlobPut (blob_key S i w1) processedBuffer (blob_options ct)
                   (fst (blob_put S (blob_key S i w1) processedBuffer (blob_options ct) w1))]
              @ (case fst (blob_put S (blob_key S i w1) processedBuffer (blob_options ct) w1) of
                   Inl err \<Rightarrow> [UnhandledRejection err]
                 | Inr b \<Rightarrow>
                     [Respond 200 (UploadBody (blob_url b) (blob_pathname b)
                                     (blob_contentType b) (length processedBuffer))])"
  using assms by (simp add: on_end_def Let_def split: prod.splits sum.splits)

lemma process_image_svg:
  "str_includes (mimeType i) ''svg'' \<Longrightarrow>
   process_image S i buffer w = ([], Inr (buffer, mimeType i), w)"
  by (simp add: process_image_def)

lemma process_image_raster:
  "\<not> str_includes (mimeType i) ''svg'' \<Longrightarrow>
   sharp_toBuffer S buffer upload_pipeline w = (Inr out, w1) \<Longrightarrow>
   process_image S i buffer w =
     ([Sharp buffer upload_pipeline (Inr out)], Inr (out, ''image/jpeg''), w1)"
  by (simp add: process_image_def)

lemma svg_file_facts:
  "mimeType (info svg_file) \<in> set ALLOWED_TYPES"
  "str_includes (mimeType (info svg_file)) ''svg''"
  "sum_list (map length (chunks svg_file)) \<le> MAX_FILE_SIZE"
  "concat (chunks svg_file) = [0x3C, 0x73, 0x76, 0x67, 0x3E]"
  by (simp_all add: svg_file_def ALLOWED_TYPES_def MAX_FILE_SIZE_def)

lemma png_file_facts:
  "mimeType (info png_file) \<in> {''image/jpeg'', ''image/png'', ''image/webp''}"
  "mimeType (info png_file) \<in> set ALLOWED_TYPES"
  "sum_list (map length (chunks png_file)) \<le> MAX_FILE_SIZE"
  "concat (chunks png_file) = [0x89, 0x50, 0x4E, 0x47]"
  by (simp_all add: png_file_def ALLOWED_TYPES_def MAX_FILE_SIZE_def)

lemma blob_key_png:
  "blob_key mem_services (info png_file) world0 = ''cat-images/1700000000000-cat.png''"
  by (simp add: blob_key_def mem_services_def world0_def png_file_def
        number_to_string.simps digit_char_def)

text \<open>
  C5. An upload of an allowed type whose name contains \<^verbatim>\<open>svg\<close>, that is
  image/svg+xml, within the size limit: sharp is not called, the blob store gets the
  bytes of the upload unchanged with content type image/svg+xml, and the response
  carries the content type of the store's result, which is image/svg+xml when the store
  reports back the type it was given.
\<close>

theorem post_upload_svg_passthrough:
  assumes allowed: "mimeType (info file) \<in> set ALLOWED_TYPES"
    and svg: "str_includes (mimeType (info file)) ''svg''"
    and within: "sum_list (map length (chunks file)) \<le> MAX_FILE_SIZE"
  shows "mimeType (info file) = ''image/svg+xml''
     \<and> sharp_calls (fst (post_upload S file w)) = []
     \<and> blob_puts (fst (post_upload S file w)) =
         [(blob_key S (info file) w, concat (chunks file), blob_options ''image/svg+xml'')]
     \<and> contentType (blob_options ''image/svg+xml'') = ''image/svg+xml''
     \<and> (\<forall>b w'. blob_put S (blob_key S (info file) w) (concat (chunks file))
                   (blob_options ''image/svg+xml'') w = (Inr b, w') \<longrightarrow>
           responses (fst (post_upload S file w)) =
             [(200, UploadBody (blob_url b) (blob_pathname b) (blob_contentType b)
                      (length (concat (chunks file))))])
     \<and> (\<forall>b w'. blob_put S (blob_key S (info file) w) (concat (chunks file))
                   (blob_options ''image/svg+xml'') w = (Inr b, w')
                 \<and> blob_contentType b = contentType (blob_options ''image/svg+xml'') \<longrightarrow>
           responses (fst (post_upload S file w)) =
             [(200, UploadBody (blob_url b) (blob_pathname b) ''image/svg+xml''
                      (length (concat (chunks file))))])"
proof -
  have mt: "mimeType (info file) = ''image/svg+xml''"
    using allowed svg by (rule allowed_svg)
  have proc: "process_image S (info file) (concat (chunks file)) w
                = ([], Inr (concat (chunks file), ''image/svg+xml''), w)"
    using process_image_svg [OF svg, of S "concat (chunks file)" w] by (simp only: mt)
  note tr = post_upload_within [OF allowed within, of S w] on_end_processed [OF proc]
  have calls: "sharp_calls (fst (post_upload S file w)) = []"
    unfolding tr by (simp add: sharp_calls_append split: sum.splits)
  have puts: "blob_puts (fst (post_upload S file w)) =
         [(blob_key S (info file) w, concat (chunks file), blob_options ''image/svg+xml'')]"
    unfolding tr by (simp add: blob_puts_append split: sum.splits)
  have resp: "responses (fst (post_upload S file w)) =
             [(200, UploadBody (blob_url b) (blob_pathname b) (blob_contentType b)
                      (length (concat (chunks file))))]"
    if "blob_put S (blob_key S (info file) w) (concat (chunks file))
                   (blob_options ''image/svg+xml'') w = (Inr b, w')" for b w'
    unfolding tr using that by (simp add: responses_append)
  have ct: "contentType (blob_options ''image/svg+xml'') = ''image/svg+xml''"
    by (simp add: blob_options_def)
  show ?thesis
    using mt calls puts ct resp by (simp only: simp_thms) (metis ct)
qed

theorem post_upload_svg_passthrough_witness:
  "mimeType (info svg_file) \<in> set ALLOWED_TYPES
   \<and> str_includes (mimeType (info svg_file)) ''svg''
   \<and> sum_list (map length (chunks svg_file)) \<le> MAX_FILE_SIZE
   \<and> sharp_calls (fst (post_upload mem_services svg_file world0)) = []
   \<and> blob_puts (fst (post_upload mem_services svg_file world0)) =
       [(blob_key mem_services (info svg_file) world0, [0x3C, 0x73, 0x76, 0x67, 0x3E],
         blob_options ''image/svg+xml'')]
   \<and> responses (fst (post_upload mem_services svg_file world0)) =
       [(200, UploadBody (''https://blob.test/'' @ blob_key mem_services (info svg_file) world0)
                (blob_key mem_services (info svg_file) world0) ''image/svg+xml'' 5)]"
proof -
  let ?key = "blob_key mem_services (info svg_file) world0"
  let ?b = "\<lparr>blob_url = ''https://blob.test/'' @ ?key, blob_pathname = ?key,
             blob_contentType = ''image/svg+xml''\<rparr>"
  let ?w = "world0\<lparr>blobs := (''https://blob.test/'' @ ?key) # blobs world0\<rparr>"
  have stored: "blob_put mem_services ?key (concat (chunks svg_file))
                  (blob_options ''image/svg+xml'') world0 = (Inr ?b, ?w)"
    by (simp add: mem_services_def mem_put_def world0_def blob_options_def)
  have echo: "blob_contentType ?b = contentType (blob_options ''image/svg+xml'')"
    by (simp add: blob_options_def)
  note inst = post_upload_svg_passthrough [OF svg_file_facts(1-3), of mem_services world0]
  from inst have calls: "sharp_calls (fst (post_upload mem_services svg_file world0)) = []"
    by blast
  from inst have puts: "blob_puts (fst (post_upload mem_services svg_file world0)) =
       [(?key, concat (chunks svg_file), blob_options ''image/svg+xml'')]"
    by blast
  from inst have "\<forall>b w'. blob_put mem_services ?key (concat (chunks svg_file))
                   (blob_options ''image/svg+xml'') world0 = (Inr b, w')
                 \<and> blob_contentType b = contentType (blob_options ''image/svg+xml'') \<longrightarrow>
           responses (fst (post_upload mem_services svg_file world0)) =
             [(200, UploadBody (blob_url b) (blob_pathname b) ''image/svg+xml''
                      (length (concat (chunks svg_file))))]"
    by blast
  with stored echo have resp: "responses (fst (post_upload mem_services svg_file world0)) =
             [(200, UploadBody (blob_url ?b) (blob_pathname ?b) ''image/svg+xml''
                      (length (concat (chunks svg_file))))]"
    by blast
  show ?thesis
    using svg_file_facts(1-3) calls puts resp by (simp add: svg_file_facts(4))
qed

lemma round_div_near:
  assumes "0 < b"
  shows "2 * round_div a b * b \<le> 2 * a + b \<and> 2 * a < 2 * round_div a b * b + b"
proof -
  define q where "q = (2 * a + b) div (2 * b)"
  define r where "r = (2 * a + b) mod (2 * b)"
  have eq: "2 * a + b = 2 * b * q + r"
    unfolding q_def r_def by simp
  have "r < 2 * b" unfolding r_def using assms by simp
  then show ?thesis
    using eq unfolding round_div_def q_def [symmetric] by (simp add: algebra_simps)
qed

lemma round_div_le:
  assumes "0 < b" and "a \<le> c * b"
  shows "round_div a b \<le> c"
proof -
  have "2 * a + b < 2 * b * Suc c" using assms by (simp add: algebra_simps)
  then have "(2 * a + b) div (2 * b) < Suc c"
    using assms(1) by (simp add: less_mult_imp_div_less mult.commute)
  then show ?thesis by (simp add: round_div_def)
qed

lemma resized_upload:
  "resized_dimensions upload_pipeline (w, h) =
     (if w \<le> 800 \<and> h \<le> 800 then (w, h)
      else if h \<le> w then (800, max 1 (round_div (h * 800) w))
      else (max 1 (round_div (w * 800) h), 800))"
  by (simp add: resized_dimensions_def upload_pipeline_def MAX_WIDTH_def MAX_HEIGHT_def)

lemma resized_fits:
  assumes "0 < w" "0 < h"
  shows "fst (resized_dimensions upload_pipeline (w, h)) \<le> 800
       \<and> snd (resized_dimensions upload_pipeline (w, h)) \<le> 800
       \<and> 0 < fst (resized_dimensions upload_pipeline (w, h))
       \<and> 0 < snd (resized_dimensions upload_pipeline (w, h))"
proof -
  have a: "round_div (h * 800) w \<le> 800" if "h \<le> w"
    using that assms by (intro round_div_le) simp_all
  have b: "round_div (w * 800) h \<le> 800" if "w \<le> h"
    using that assms by (intro round_div_le) simp_all
  show ?thesis
    using assms a b by (auto simp: resized_upload)
qed

lemma resized_small:
  "w \<le> 800 \<Longrightarrow> h \<le> 800 \<Longrightarrow> resized_dimensions upload_pipeline (w, h) = (w, h)"
  by (simp add: resized_upload)

lemma near_pixel:
  assumes "0 < b"
  shows "max 1 (round_div a b) * b \<le> a + b \<and> a \<le> max 1 (round_div a b) * b + b"
proof -
  define p where "p = round_div a b * b"
  from round_div_near [OF assms, of a]
  have near: "2 * p \<le> 2 * a + b" "2 * a < 2 * p + b"
    by (simp_all add: p_def mult.assoc)
  show ?thesis
  proof (cases "round_div a b = 0")
    case True
    with near have "2 * a < b" by (simp add: p_def)
    with True show ?thesis by simp
  next
    case False
    then have "max 1 (round_div a b) * b = p" by (simp add: p_def max_def)
    with near show ?thesis by simp
  qed
qed

lemma resized_wide:
  assumes "0 < w" "800 < w \<or> 800 < h" "h \<le> w"
  shows "fst (resized_dimensions upload_pipeline (w, h)) = 800
       \<and> snd (resized_dimensions upload_pipeline (w, h)) * w \<le> 800 * h + w
       \<and> 800 * h \<le> snd (resized_dimensions upload_pipeline (w, h)) * w + w"
proof -
  have big: "\<not> (w \<le> 800 \<and> h \<le> 800)" using assms by auto
  have dims: "resized_dimensions upload_pipeline (w, h) = (800, max 1 (round_div (h * 800) w))"
    using big assms(3) by (auto simp: resized_upload)
  from near_pixel [OF assms(1), of "h * 800"]
  show ?thesis unfolding dims by (simp add: mult.commute)
qed

lemma resized_tall:
  assumes "0 < h" "800 < w \<or> 800 < h" "w < h"
  shows "snd (resized_dimensions upload_pipeline (w, h)) = 800
       \<and> fst (resized_dimensions upload_pipeline (w, h)) * h \<le> 800 * w + h
       \<and> 800 * w \<le> fst (resized_dimensions upload_pipeline (w, h)) * h + h"
proof -
  have big: "\<not> (w \<le> 800 \<and> h \<le> 800)" using assms by auto
  have dims: "resized_dimensions upload_pipeline (w, h) = (max 1 (round_div (w * 800) h), 800)"
    using big assms(3) by (auto simp: resized_upload)
  from near_pixel [OF assms(1), of "w * 800"]
  show ?thesis unfolding dims by (simp add: mult.commute)
qed

lemma mem_sharp_png:
  "sharp_toBuffer mem_services (concat (chunks png_file)) upload_pipeline world0
     = (Inr [0xFF, 0xD8, 0x89, 0x50], world0)"
  by (simp add: mem_services_def mem_sharp_def png_file_def)

text \<open>
  C6. An upload declared JPEG, PNG or WebP within the size limit goes through sharp
  once, with the pipeline resize(800, 800, fit inside, without enlargement) and
  jpeg(quality 85), and what sharp returns is stored as image/jpeg. For that pipeline
  the resized dimensions fit the 800\<times>800 box; an image that fits the box keeps its
  dimensions; a larger image has its longer edge at 800 and the other edge within one
  pixel of the exact aspect ratio.
\<close>

theorem post_upload_raster_transcode:
  assumes raster: "mimeType (info file) \<in> {''image/jpeg'', ''image/png'', ''image/webp''}"
    and within: "sum_list (map length (chunks file)) \<le> MAX_FILE_SIZE"
    and transcoded: "sharp_toBuffer S (concat (chunks file)) upload_pipeline w = (Inr out, w1)"
  shows "sharp_calls (fst (post_upload S file w)) = [(concat (chunks file), upload_pipeline)]
     \<and> upload_pipeline = \<lparr>resize_width = 800, resize_height = 800, resize_fit = Inside,
                           withoutEnlargement = True, jpeg_quality = 85\<rparr>
     \<and> blob_puts (fst (post_upload S file w)) =
         [(blob_key S (info file) w1, out, blob_options ''image/jpeg'')]
     \<and> contentType (blob_options ''image/jpeg'') = ''image/jpeg''
     \<and> (\<forall>iw ih. 0 < iw \<and> 0 < ih \<longrightarrow>
           (case resized_dimensions upload_pipeline (iw, ih) of
              (ow, oh) \<Rightarrow>
                0 < ow \<and> ow \<le> 800 \<and> 0 < oh \<and> oh \<le> 800
                \<and> (iw \<le> 800 \<and> ih \<le> 800 \<longrightarrow> ow = iw \<and> oh = ih)
                \<and> ((800 < iw \<or> 800 < ih) \<and> ih \<le> iw \<longrightarrow>
                     ow = 800 \<and> oh * iw \<le> 800 * ih + iw \<and> 800 * ih \<le> oh * iw + iw)
                \<and> ((800 < iw \<or> 800 < ih) \<and> iw < ih \<longrightarrow>
                     oh = 800 \<and> ow * ih \<le> 800 * iw + ih \<and> 800 * iw \<le> ow * ih + ih)))"
proof -
  from raster_not_svg [OF raster]
  have allowed: "mimeType (info file) \<in> set ALLOWED_TYPES"
    and not_svg: "\<not> str_includes (mimeType (info file)) ''svg''"
    by simp_all
  note proc = process_image_raster [OF not_svg transcoded]
  note tr = post_upload_within [OF allowed within, of S w] on_end_processed [OF proc]
  have calls: "sharp_calls (fst (post_upload S file w)) = [(concat (chunks file), upload_pipeline)]"
    unfolding tr by (simp add: sharp_calls_append split: sum.splits)
  have puts: "blob_puts (fst (post_upload S file w)) =
         [(blob_key S (info file) w1, out, blob_options ''image/jpeg'')]"
    unfolding tr by (simp add: blob_puts_append split: sum.splits)
  have pl: "upload_pipeline = \<lparr>resize_width = 800, resize_height = 800, resize_fit = Inside,
                           withoutEnlargement = True, jpeg_quality = 85\<rparr>"
    by (simp add: upload_pipeline_def MAX_WIDTH_def MAX_HEIGHT_def JPEG_QUALITY_def)
  have ct: "contentType (blob_options ''image/jpeg'') = ''image/jpeg''"
    by (simp add: blob_options_def)
  have geo: "case resized_dimensions upload_pipeline (iw, ih) of
              (ow, oh) \<Rightarrow>
                0 < ow \<and> ow \<le> 800 \<and> 0 < oh \<and> oh \<le> 800
                \<and> (iw \<le> 800 \<and> ih \<le> 800 \<longrightarrow> ow = iw \<and> oh = ih)
                \<and> ((800 < iw \<or> 800 < ih) \<and> ih \<le> iw \<longrightarrow>
                     ow = 800 \<and> oh * iw \<le> 800 * ih + iw \<and> 800 * ih \<le> oh * iw + iw)
                \<and> ((800 < iw \<or> 800 < ih) \<and> iw < ih \<longrightarrow>
                     oh = 800 \<and> ow * ih \<le> 800 * iw + ih \<and> 800 * iw \<le> ow * ih + ih)"
    if pos: "0 < iw \<and> 0 < ih" for iw ih
  proof -
    obtain ow oh where d: "resized_dimensions upload_pipeline (iw, ih) = (ow, oh)"
      by (cases "resized_dimensions upload_pipeline (iw, ih)")
    from pos have piw: "0 < iw" and pih: "0 < ih" by simp_all
    have fits: "0 < ow \<and> ow \<le> 800 \<and> 0 < oh \<and> oh \<le> 800"
      using resized_fits [OF piw pih] by (simp add: d)
    have small: "iw \<le> 800 \<and> ih \<le> 800 \<longrightarrow> ow = iw \<and> oh = ih"
      using resized_small [of iw ih] by (simp add: d)
    have wide: "(800 < iw \<or> 800 < ih) \<and> ih \<le> iw \<longrightarrow>
                     ow = 800 \<and> oh * iw \<le> 800 * ih + iw \<and> 800 * ih \<le> oh * iw + iw"
      using resized_wide [OF piw, of ih] by (simp add: d)
    have tall: "(800 < iw \<or> 800 < ih) \<and> iw < ih \<longrightarrow>
                     oh = 800 \<and> ow * ih \<le> 800 * iw + ih \<and> 800 * iw \<le> ow * ih + ih"
      using resized_tall [OF pih, of iw] by (simp add: d)
    show ?thesis unfolding d using fits small wide tall by simp
  qed
  show ?thesis
    using calls puts ct geo by (simp only: pl [symmetric] simp_thms) blast
qed

theorem post_upload_raster_transcode_witness:
  "mimeType (info png_file) \<in> {''image/jpeg'', ''image/png'', ''image/webp''}
   \<and> sum_list (map length (chunks png_file)) \<le> MAX_FILE_SIZE
   \<and> sharp_toBuffer mem_services (concat (chunks png_file)) upload_pipeline world0
       = (Inr [0xFF, 0xD8, 0x89, 0x50], world0)
   \<and> sharp_calls (fst (post_upload mem_services png_file world0))
       = [([0x89, 0x50, 0x4E, 0x47], upload_pipeline)]
   \<and> blob_puts (fst (post_upload mem_services png_file world0)) =
       [(blob_key mem_services (info png_file) world0, [0xFF, 0xD8, 0x89, 0x50],
         blob_options ''image/jpeg'')]
   \<and> resized_dimensions upload_pipeline (1600, 1200) = (800, 600)
   \<and> resized_dimensions upload_pipeline (600, 2400) = (200, 800)
   \<and> resized_dimensions upload_pipeline (640, 480) = (640, 480)
   \<and> (case resized_dimensions upload_pipeline (1600, 1200) of
         (ow, oh) \<Rightarrow> ow = 800 \<and> oh * 1600 \<le> 800 * 1200 + 1600 \<and> 800 * 1200 \<le> oh * 1600 + 1600)"
proof -
  note inst = post_upload_raster_transcode [OF png_file_facts(1) png_file_facts(3) mem_sharp_png]
  note calls = inst [THEN conjunct1]
  note puts = inst [THEN conjunct2, THEN conjunct2, THEN conjunct1]
  note geo_all = inst [THEN conjunct2, THEN conjunct2, THEN conjunct2, THEN conjunct2]
  have geo: "case resized_dimensions upload_pipeline (1600, 1200) of
         (ow, oh) \<Rightarrow> ow = 800 \<and> oh * 1600 \<le> 800 * 1200 + 1600 \<and> 800 * 1200 \<le> oh * 1600 + 1600"
    using geo_all [rule_format, of 1600 1200] by (simp split: prod.splits)
  have d1: "resized_dimensions upload_pipeline (1600, 1200) = (800, 600)"
    by (simp add: resized_upload round_div_def)
  have d2: "resized_dimensions upload_pipeline (600, 2400) = (200, 800)"
    by (simp add: resized_upload round_div_def)
  have d3: "resized_dimensions upload_pipeline (640, 480) = (640, 480)"
    by (simp add: resized_upload round_div_def)
  show ?thesis
    using png_file_facts(1,3) mem_sharp_png calls puts geo d2 d3
    by (simp add: png_file_facts(4) d1)
qed

text \<open>
  C7. A successful upload (allowed type, within the limit, the image processed and the
  blob stored): the one response has status 200, of the class of 201, and the body
  \<^verbatim>\<open>{url, pathname, contentType, size}\<close> with the three fields of the store's result
  and the length of the processed buffer.
\<close>

theorem post_upload_success:
  assumes allowed: "mimeType (info file) \<in> set ALLOWED_TYPES"
    and within: "sum_list (map length (chunks file)) \<le> MAX_FILE_SIZE"
    and processed: "process_image S (info file) (concat (chunks file)) w
                      = (es, Inr (processedBuffer, ct), w1)"
    and stored: "blob_put S (blob_key S (info file) w1) processedBuffer (blob_options ct) w1
                   = (Inr b, w2)"
  shows "responses (fst (post_upload S file w)) =
           [(200, UploadBody (blob_url b) (blob_pathname b) (blob_contentType b)
                    (length processedBuffer))]
         \<and> map (\<lambda>r. status_class (fst r)) (responses (fst (post_upload S file w)))
             = [status_class 201]"
proof -
  have quiet: "responses es = []"
    using processed by (auto simp: process_image_def split: if_splits prod.splits sum.splits)
  note tr = post_upload_within [OF allowed within, of S w] on_end_processed [OF processed]
  have "responses (fst (post_upload S file w)) =
           [(200, UploadBody (blob_url b) (blob_pathname b) (blob_contentType b)
                    (length processedBuffer))]"
    unfolding tr using stored quiet by (simp add: responses_append)
  then show ?thesis by (simp add: status_class_def)
qed

theorem post_upload_success_witness:
  "mimeType (info png_file) \<in> set ALLOWED_TYPES
   \<and> sum_list (map length (chunks png_file)) \<le> MAX_FILE_SIZE
   \<and> process_image mem_services (info png_file) (concat (chunks png_file)) world0
       = ([Sharp [0x89, 0x50, 0x4E, 0x47] upload_pipeline (Inr [0xFF, 0xD8, 0x89, 0x50])],
          Inr ([0xFF, 0xD8, 0x89, 0x50], ''image/jpeg''), world0)
   \<and> responses (fst (post_upload mem_services png_file world0)) =
       [(200, UploadBody (''https://blob.test/'' @ blob_key mem_services (info png_file) world0)
                (blob_key mem_services (info png_file) world0) ''image/jpeg'' 4)]
   \<and> map (\<lambda>r. status_class (fst r)) (responses (fst (post_upload mem_services png_file world0)))
       = [status_class 201]"
proof -
  let ?key = "blob_key mem_services (info png_file) world0"
  let ?b = "\<lparr>blob_url = ''https://blob.test/'' @ ?key, blob_pathname = ?key,
             blob_contentType = ''image/jpeg''\<rparr>"
  let ?w = "world0\<lparr>blobs := (''https://blob.test/'' @ ?key) # blobs world0\<rparr>"
  have processed: "process_image mem_services (info png_file) (concat (chunks png_file)) world0
       = ([Sharp (concat (chunks png_file)) upload_pipeline (Inr [0xFF, 0xD8, 0x89, 0x50])],
          Inr ([0xFF, 0xD8, 0x89, 0x50], ''image/jpeg''), world0)"
    using mem_sharp_png by (simp add: process_image_def png_file_def)
  have stored: "blob_put mem_services ?key [0xFF, 0xD8, 0x89, 0x50]
                  (blob_options ''image/jpeg'') world0 = (Inr ?b, ?w)"
    by (simp add: mem_services_def mem_put_def world0_def blob_options_def)
  note inst = post_upload_success [OF png_file_facts(2,3) processed stored]
  show ?thesis
    using png_file_facts(2,3) processed inst
    by (simp add: png_file_facts(4) status_class_def)
qed

section \<open>Deleting an image\<close>

lemma delete_image_by_param:
  assumes "raw \<noteq> []"
    and "decodeURIComponent S raw = Inr u"
    and "decodeURIComponent S u = Inr url"
    and "blob_del S url w = (Inr x, w')"
  shows "upload_router S \<lparr>req_method = DELETE, req_path = [''image'', raw], req_body = rb,
                           req_content = c\<rparr> w
           = Handled [BlobDel url (Inr x), Respond 200 (DeletedBody url)] w'"
  using assms by (simp add: upload_router_def delete_image_def)

lemma mem_decode_url:
  "mem_decode ''https%3A%2F%2Fblob.test%2Fcat.jpg'' = Inr ''https://blob.test/cat.jpg''"
  by (simp add: percent_escapes_def)

lemma mem_decode_plain:
  "mem_decode ''https://blob.test/cat.jpg'' = Inr ''https://blob.test/cat.jpg''"
  by simp

lemma delete_image_by_param_run:
  "upload_router mem_services
     \<lparr>req_method = DELETE, req_path = [''image'', ''https%3A%2F%2Fblob.test%2Fcat.jpg''],
      req_body = None, req_content = Urlencoded\<rparr> world0
   = Handled [BlobDel ''https://blob.test/cat.jpg'' (Inr ()),
              Respond 200 (DeletedBody ''https://blob.test/cat.jpg'')]
       (world0\<lparr>blobs := []\<rparr>)"
proof -
  have by_express: "decodeURIComponent mem_services ''https%3A%2F%2Fblob.test%2Fcat.jpg''
                   = Inr ''https://blob.test/cat.jpg''"
    by (simp add: mem_services_def percent_escapes_def)
  have by_handler: "decodeURIComponent mem_services ''https://blob.test/cat.jpg''
                   = Inr ''https://blob.test/cat.jpg''"
    by (simp add: mem_services_def)
  have deleted: "blob_del mem_services ''https://blob.test/cat.jpg'' world0
                   = (Inr (), world0\<lparr>blobs := []\<rparr>)"
    by (simp add: mem_services_def mem_del_def world0_def)
  show ?thesis
    by (rule delete_image_by_param [OF _ by_express by_handler deleted]) simp
qed

text \<open>The route is found whatever the case of its letters.\<close>

lemma match_path_case:
  "match_path [Lit ''image'', Param ''url''] [''IMAGE'', ''cat.jpg''] = Some [(''url'', ''cat.jpg'')]"
  by (simp add: ascii_lower_def)

text \<open>A parameter that Express cannot decode never reaches the handler.\<close>

lemma delete_image_bad_param:
  "upload_router mem_services
     \<lparr>req_method = DELETE, req_path = [''image'', ''100%''], req_body = None,
      req_content = Urlencoded\<rparr> world0 = BadParam"
  by (simp add: upload_router_def mem_services_def)

text \<open>A POST /upload whose content type busboy refuses: the handler's promise rejects.\<close>

lemma post_upload_not_multipart:
  "upload_router S
     \<lparr>req_method = POST, req_path = [''upload''], req_body = rb,
      req_content = Unsupported err\<rparr> w = Handled [UnhandledRejection err] w"
  by (simp add: upload_router_def)

text \<open>
  C9. The request the front end sends to remove an image, DELETE /api/image with the
  blob URL in a JSON body, matches no route of the router: no handler runs, the blob
  store is not called and no \<^verbatim>\<open>{deleted: url}\<close> is sent. Only DELETE /api/image/:url,
  with the URL as a path parameter, deletes a blob.
\<close>

theorem delete_image_body_not_routed:
  "upload_router S delete_by_body w = NoRoute"
  by (simp add: upload_router_def delete_by_body_def)

end
